theory Spec2Isabelle
  imports Main "HOL-Library.Word"
begin

section \<open>Values and errors\<close>

text \<open>
  Go strings are byte sequences; a \<open>string\<close> here is the list of those bytes.
  An \<open>error\<close> value is either built by the program with \<open>fmt.Errorf\<close>, handed over by a
  library (the device-access library, the operating system, a codec), or raised by the Go
  runtime (a nil pointer dereference).
\<close>

datatype error = Errorf string | LibError string | RuntimeError string

abbreviation UnsupportedFormat :: error where
  "UnsupportedFormat \<equiv> Errorf ''unrecognized extension''"

abbreviation UnknownOption :: error where
  "UnknownOption \<equiv> Errorf ''no such option''"

abbreviation NotFound :: "string \<Rightarrow> error" where
  "NotFound name \<equiv> Errorf (''no device named '' @ name)"

section \<open>Encoder selection\<close>

text \<open>
  \<open>filepath.Ext\<close> of the Go library scans the path from its last byte towards the
  first, stops at a path separator, and returns the suffix that starts at the first dot it
  meets; without a dot the extension is empty. The separator is \<open>/\<close>. \<open>ExtScan\<close> is
  that loop on the reversed path, with the bytes already passed in \<open>suffix\<close>.
\<close>

fun ExtScan :: "string \<Rightarrow> string \<Rightarrow> string" where
  "ExtScan [] suffix = []"
| "ExtScan (c # cs) suffix =
     (if c = CHR ''/'' then []
      else if c = CHR ''.'' then c # suffix
      else ExtScan cs (c # suffix))"

definition Ext :: "string \<Rightarrow> string" where
  "Ext path = ExtScan (rev path) []"

text \<open>
  \<open>strings.ToLower\<close>. A string whose bytes are all ASCII is lowered byte by byte: the
  letters \<open>A\<close> to \<open>Z\<close> are moved to \<open>a\<close> to \<open>z\<close>, every other byte stays. A string with
  a byte outside ASCII is handed to \<open>strings.Map(unicode.ToLower, s)\<close>, which decodes the
  runes and lowers each by the Unicode tables of the Go library. Those tables are not
  part of the repository: that mapping is the parameter \<open>mapToLower\<close>.
\<close>

definition lowerByte :: "char \<Rightarrow> char" where
  "lowerByte c =
     (let n = (of_char c :: nat) in if 65 \<le> n \<and> n \<le> 90 then char_of (n + 32) else c)"

definition isASCII :: "string \<Rightarrow> bool" where
  "isASCII s = list_all (\<lambda>c. (of_char c :: nat) < 128) s"

definition ToLower :: "(string \<Rightarrow> string) \<Rightarrow> string \<Rightarrow> string" where
  "ToLower mapToLower s = (if isASCII s then map lowerByte s else mapToLower s)"

datatype EncodeFunc = PNG | JPEG | TIFF

definition pathToEncoder :: "(string \<Rightarrow> string) \<Rightarrow> string \<Rightarrow> error + EncodeFunc" where
  "pathToEncoder mapToLower path =
     (let ext = ToLower mapToLower (Ext path) in
      if ext = ''.png'' then Inr PNG
      else if ext = ''.jpg'' \<or> ext = ''.jpeg'' then Inr JPEG
      else if ext = ''.tif'' \<or> ext = ''.tiff'' then Inr TIFF
      else Inl UnsupportedFormat)"

subsection \<open>The selection rule as the specification words it\<close>

text \<open>
  The file name is what follows the last separator of the path; its extension starts at
  the last dot of the file name and is empty when the file name has no dot.

  Comparison without regard to case is stated on the letters themselves: a byte is the
  capital of a small letter \<open>a\<close> to \<open>z\<close> when it lies 32 below it; two bytes are the same
  letter when they are equal or one is the capital of the other; two extensions are the
  same up to case when they have the same length and the same letter at every position.
\<close>

definition spec_fileName :: "string \<Rightarrow> string" where
  "spec_fileName path = rev (takeWhile (\<lambda>c. c \<noteq> CHR ''/'') (rev path))"

definition spec_extension :: "string \<Rightarrow> string" where
  "spec_extension path =
     (let f = spec_fileName path in
      if CHR ''.'' \<in> set f then CHR ''.'' # rev (takeWhile (\<lambda>c. c \<noteq> CHR ''.'') (rev f))
      else [])"

definition capitalOf :: "char \<Rightarrow> char \<Rightarrow> bool" where
  "capitalOf C c =
     (97 \<le> (of_char c :: nat) \<and> (of_char c :: nat) \<le> 122 \<and> (of_char C :: nat) + 32 = of_char c)"

definition sameLetter :: "char \<Rightarrow> char \<Rightarrow> bool" where
  "sameLetter c d = (c = d \<or> capitalOf c d \<or> capitalOf d c)"

definition sameUpToCase :: "string \<Rightarrow> string \<Rightarrow> bool" where
  "sameUpToCase a b = list_all2 sameLetter a b"

definition spec_resolverFor :: "string \<Rightarrow> error + EncodeFunc" where
  "spec_resolverFor path =
     (let e = spec_extension path in
      if sameUpToCase e ''.png'' then Inr PNG
      else if sameUpToCase e ''.jpg'' \<or> sameUpToCase e ''.jpeg'' then Inr JPEG
      else if sameUpToCase e ''.tif'' \<or> sameUpToCase e ''.tiff'' then Inr TIFF
      else Inl UnsupportedFormat)"

section \<open>The device-access library, the file system and the codecs\<close>

text \<open>
  The program is a client of the \<open>sane\<close> package, of \<open>os\<close> and of three image codecs;
  none of them is part of the repository. Their data is modelled as far as the program
  reads it, and their operations are parameters of the program (record \<open>api\<close> below).

  A dynamically typed option value (\<open>interface{}\<close>) is a \<open>val\<close>: \<open>VNil\<close> is the nil
  interface, \<open>VAuto\<close> is \<open>sane.Auto\<close>, and a \<open>float64\<close> is kept as its 64 bits.
\<close>

datatype val = VNil | VBool bool | VInt int | VFloat "64 word" | VString string | VAuto

datatype Type = TypeBool | TypeInt | TypeFloat | TypeString | TypeButton

datatype Unit = UnitNone | UnitPixel | UnitBit | UnitMm | UnitDpi | UnitPercent | UnitUsec

record Range =
  r_Min :: val
  r_Max :: val
  r_Quant :: val

text \<open>\<open>sane.Option\<close>, read by the program as \<open>o.Name\<close>, \<open>o.IsSettable\<close> and so on.\<close>

record sane_Option =
  o_Name :: string
  o_Group :: string
  o_Desc :: string
  o_Type :: Type
  o_Unit :: Unit
  o_ConstrSet :: "val list"
  o_ConstrRange :: "Range option"
  o_IsActive :: bool
  o_IsSettable :: bool
  o_IsAutomatic :: bool

text \<open>\<open>sane.Device\<close>, read by the program as \<open>d.Name\<close>, \<open>d.Vendor\<close> and so on.\<close>

record Device =
  d_Name :: string
  d_Vendor :: string
  d_Model :: string
  d_Type :: string

text \<open>A non-nil \<open>*sane.Conn\<close>; a \<open>*sane.Conn\<close> that may be nil is a \<open>conn option\<close>.\<close>

record conn =
  c_Device :: string
  c_handle :: nat

type_synonym os_File = nat

type_synonym image = "nat list"

text \<open>
  Every call that leaves the program is recorded, in order, with its arguments and with
  the error the library answered (\<open>None\<close> is Go's nil error).
\<close>

datatype event =
    CallInit "error option"
  | CallExit
  | CallOpen string "error option"
  | CallDevices "error option"
  | CallGetOption conn string
  | CallSetOption conn string val "error option"
  | CallReadImage conn "error option"
  | CallClose conn
  | CallCreate string "error option"
  | CallFileClose os_File "error option"
  | CallEncode EncodeFunc os_File "error option"
  | LogPrintf string "val list"
  | Print "val list"

text \<open>
  The operations of the libraries on a world \<open>'w\<close> (the devices, the file system). A Go
  function with results \<open>(x, err)\<close> answers the pair of both. \<open>Map_ToLower\<close> is
  \<open>strings.Map(unicode.ToLower, s)\<close>, the lowering \<open>strings.ToLower\<close> falls back to.
\<close>

record 'w api =
  sane_Init :: "'w \<Rightarrow> error option \<times> 'w"
  sane_Exit :: "'w \<Rightarrow> 'w"
  sane_Open :: "string \<Rightarrow> 'w \<Rightarrow> (conn option \<times> error option) \<times> 'w"
  sane_Devices :: "'w \<Rightarrow> (Device list \<times> error option) \<times> 'w"
  Conn_Options :: "conn \<Rightarrow> 'w \<Rightarrow> sane_Option list"
  Conn_GetOption :: "conn \<Rightarrow> string \<Rightarrow> 'w \<Rightarrow> (val \<times> error option) \<times> 'w"
  Conn_SetOption :: "conn \<Rightarrow> string \<Rightarrow> val \<Rightarrow> 'w \<Rightarrow> error option \<times> 'w"
  Conn_ReadImage :: "conn \<Rightarrow> 'w \<Rightarrow> (image \<times> error option) \<times> 'w"
  Conn_Close :: "conn \<Rightarrow> 'w \<Rightarrow> 'w"
  os_Create :: "string \<Rightarrow> 'w \<Rightarrow> (os_File \<times> error option) \<times> 'w"
  File_Close :: "os_File \<Rightarrow> 'w \<Rightarrow> error option \<times> 'w"
  Encode :: "EncodeFunc \<Rightarrow> os_File \<Rightarrow> image \<Rightarrow> 'w \<Rightarrow> error option \<times> 'w"
  Map_ToLower :: "string \<Rightarrow> string"

record 'w state =
  world :: "'w"
  trace :: "event list"

text \<open>A function either returns to its caller or panics.\<close>

datatype 'a outcome = Return 'a | Panic error

abbreviation nilDereference :: error where
  "nilDereference \<equiv> RuntimeError ''invalid memory address or nil pointer dereference''"

subsection \<open>Calls, recorded\<close>

definition emit :: "event list \<Rightarrow> 'w state \<Rightarrow> 'w state" where
  "emit evs s = s\<lparr>trace := trace s @ evs\<rparr>"

definition call_Init :: "'w api \<Rightarrow> 'w state \<Rightarrow> error option \<times> 'w state" where
  "call_Init L s =
     (case sane_Init L (world s) of
        (err, w) \<Rightarrow> (err, \<lparr>world = w, trace = trace s @ [CallInit err]\<rparr>))"

definition call_Exit :: "'w api \<Rightarrow> 'w state \<Rightarrow> 'w state" where
  "call_Exit L s = \<lparr>world = sane_Exit L (world s), trace = trace s @ [CallExit]\<rparr>"

definition call_Open ::
  "'w api \<Rightarrow> string \<Rightarrow> 'w state \<Rightarrow> (conn option \<times> error option) \<times> 'w state" where
  "call_Open L name s =
     (case sane_Open L name (world s) of
        ((c, err), w) \<Rightarrow> ((c, err), \<lparr>world = w, trace = trace s @ [CallOpen name err]\<rparr>))"

definition call_Devices ::
  "'w api \<Rightarrow> 'w state \<Rightarrow> (Device list \<times> error option) \<times> 'w state" where
  "call_Devices L s =
     (case sane_Devices L (world s) of
        ((devs, err), w) \<Rightarrow> ((devs, err), \<lparr>world = w, trace = trace s @ [CallDevices err]\<rparr>))"

definition call_GetOption ::
  "'w api \<Rightarrow> conn \<Rightarrow> string \<Rightarrow> 'w state \<Rightarrow> (val \<times> error option) \<times> 'w state" where
  "call_GetOption L c name s =
     (case Conn_GetOption L c name (world s) of
        (r, w) \<Rightarrow> (r, \<lparr>world = w, trace = trace s @ [CallGetOption c name]\<rparr>))"

definition call_SetOption ::
  "'w api \<Rightarrow> conn \<Rightarrow> string \<Rightarrow> val \<Rightarrow> 'w state \<Rightarrow> error option \<times> 'w state" where
  "call_SetOption L c name v s =
     (case Conn_SetOption L c name v (world s) of
        (err, w) \<Rightarrow> (err, \<lparr>world = w, trace = trace s @ [CallSetOption c name v err]\<rparr>))"

definition call_ReadImage ::
  "'w api \<Rightarrow> conn \<Rightarrow> 'w state \<Rightarrow> (image \<times> error option) \<times> 'w state" where
  "call_ReadImage L c s =
     (case Conn_ReadImage L c (world s) of
        ((img, err), w) \<Rightarrow> ((img, err), \<lparr>world = w, trace = trace s @ [CallReadImage c err]\<rparr>))"

definition call_Close :: "'w api \<Rightarrow> conn \<Rightarrow> 'w state \<Rightarrow> 'w state" where
  "call_Close L c s = \<lparr>world = Conn_Close L c (world s), trace = trace s @ [CallClose c]\<rparr>"

definition call_Create ::
  "'w api \<Rightarrow> string \<Rightarrow> 'w state \<Rightarrow> (os_File \<times> error option) \<times> 'w state" where
  "call_Create L fileName s =
     (case os_Create L fileName (world s) of
        ((f, err), w) \<Rightarrow> ((f, err), \<lparr>world = w, trace = trace s @ [CallCreate fileName err]\<rparr>))"

definition call_FileClose :: "'w api \<Rightarrow> os_File \<Rightarrow> 'w state \<Rightarrow> error option \<times> 'w state" where
  "call_FileClose L f s =
     (case File_Close L f (world s) of
        (err, w) \<Rightarrow> (err, \<lparr>world = w, trace = trace s @ [CallFileClose f err]\<rparr>))"

definition call_Encode ::
  "'w api \<Rightarrow> EncodeFunc \<Rightarrow> os_File \<Rightarrow> image \<Rightarrow> 'w state \<Rightarrow> error option \<times> 'w state" where
  "call_Encode L enc f img s =
     (case Encode L enc f img (world s) of
        (err, w) \<Rightarrow> (err, \<lparr>world = w, trace = trace s @ [CallEncode enc f err]\<rparr>))"

section \<open>The program\<close>

subsection \<open>openDevice\<close>

text \<open>\<open>strings.Contains s substr\<close>: \<open>substr\<close> occurs in \<open>s\<close> as a contiguous run of bytes.\<close>

fun HasPrefix :: "string \<Rightarrow> string \<Rightarrow> bool" where
  "HasPrefix s [] = True"
| "HasPrefix [] (p # ps) = False"
| "HasPrefix (c # cs) (p # ps) = (c = p \<and> HasPrefix cs ps)"

fun Contains :: "string \<Rightarrow> string \<Rightarrow> bool" where
  "Contains [] substr = (substr = [])"
| "Contains (c # cs) substr = (HasPrefix (c # cs) substr \<or> Contains cs substr)"

text \<open>The loop of \<open>openDevice\<close> over the enumerated devices.\<close>

fun openDevice_loop ::
  "'w api \<Rightarrow> string \<Rightarrow> Device list \<Rightarrow> 'w state \<Rightarrow> (conn option \<times> error option) \<times> 'w state"
where
  "openDevice_loop L name [] s = ((None, Some (NotFound name)), s)"
| "openDevice_loop L name (d # ds) s =
     (if Contains (d_Name d) name then call_Open L (d_Name d) s
      else openDevice_loop L name ds s)"

definition openDevice ::
  "'w api \<Rightarrow> string \<Rightarrow> 'w state \<Rightarrow> (conn option \<times> error option) \<times> 'w state" where
  "openDevice L name s =
     (case call_Open L name s of
        ((c, err1), s1) \<Rightarrow>
          if err1 = None then ((c, None), s1)
          else (case call_Devices L s1 of
                  ((devs, err2), s2) \<Rightarrow>
                    if err2 \<noteq> None then ((None, err2), s2)
                    else openDevice_loop L name devs s2))"

subsection \<open>Printing the options\<close>

definition unitName :: "Unit \<Rightarrow> string option" where
  "unitName u =
     (case u of
        UnitPixel \<Rightarrow> Some ''pixels''
      | UnitBit \<Rightarrow> Some ''bits''
      | UnitMm \<Rightarrow> Some ''millimetres''
      | UnitDpi \<Rightarrow> Some ''dots per inch''
      | UnitPercent \<Rightarrow> Some ''percent''
      | UnitUsec \<Rightarrow> Some ''microseconds''
      | UnitNone \<Rightarrow> None)"

text \<open>
  \<open>x != 0.0\<close> for an interface value \<open>x\<close>: false only when \<open>x\<close> holds a \<open>float64\<close> that is
  zero, of either sign.
\<close>

definition neqFloatZero :: "val \<Rightarrow> bool" where
  "neqFloatZero x =
     (case x of VFloat f \<Rightarrow> \<not> (f = 0 \<or> f = 0x8000000000000000) | _ \<Rightarrow> True)"

text \<open>The loop of \<open>printConstraints\<close> over \<open>o.ConstrSet\<close>, with the variable \<open>first\<close>.\<close>

fun printConstrSet :: "bool \<Rightarrow> val list \<Rightarrow> event list" where
  "printConstrSet first [] = []"
| "printConstrSet first (v # vs) =
     (if first then Print [VString '' %v'', v] # printConstrSet False vs
      else Print [VString ''|%v'', v] # printConstrSet first vs)"

definition printConstraints :: "sane_Option \<Rightarrow> event list" where
  "printConstraints o' =
     (let first = \<not> o_IsAutomatic o';
          auto = (if o_IsAutomatic o' then [Print [VString '' auto'']] else [])
      in case o_ConstrRange o' of
           Some r \<Rightarrow>
             auto
             @ [if first then Print [VString '' %v..%v'', r_Min r, r_Max r]
                else Print [VString ''|%v..%v'', r_Min r, r_Max r]]
             @ (if (o_Type o' = TypeInt \<and> r_Quant r \<noteq> VInt 0)
                   \<or> (o_Type o' = TypeFloat \<and> neqFloatZero (r_Quant r))
                then [Print [VString '' in steps of %v'', r_Quant r]] else [])
         | None \<Rightarrow> auto @ printConstrSet first (o_ConstrSet o'))"

definition printOption :: "sane_Option \<Rightarrow> val \<Rightarrow> event list" where
  "printOption o' v =
     [LogPrintf ''-------------------------------------------------'' [],
      LogPrintf ''    -%s'' [VString (o_Name o')]]
     @ printConstraints o'
     @ [if v \<noteq> VNil then LogPrintf '' [%v]'' [v]
        else if \<not> o_IsActive o' then LogPrintf '' [inactive]'' []
        else LogPrintf '' [?]'' []]
     @ (case unitName (o_Unit o') of
          Some name \<Rightarrow> [LogPrintf '' %s'' [VString name]]
        | None \<Rightarrow> [])
     @ [LogPrintf ''%s'' [VString (o_Desc o')]]"

text \<open>The loop of \<open>showOptions\<close> over \<open>c.Options()\<close>, with the variable \<open>lastGroup\<close>.\<close>

fun showOptions_loop ::
  "'w api \<Rightarrow> conn \<Rightarrow> string \<Rightarrow> sane_Option list \<Rightarrow> 'w state \<Rightarrow> 'w state" where
  "showOptions_loop L c lastGroup [] s = s"
| "showOptions_loop L c lastGroup (o' # os) s =
     (if \<not> o_IsSettable o' then showOptions_loop L c lastGroup os s
      else
        let s1 = (if o_Group o' \<noteq> lastGroup
                  then emit [LogPrintf (''  %s:'' @ [CHR 0x0A]) [VString (o_Group o')]] s
                  else s)
        in case call_GetOption L c (o_Name o') s1 of
             ((v, _), s2) \<Rightarrow>
               showOptions_loop L c (o_Group o') os (emit (printOption o' v) s2))"

text \<open>
  \<open>showOptions\<close> reads \<open>c.Device\<close> first: with a nil \<open>c\<close> it panics before it prints.
\<close>

definition showOptions :: "'w api \<Rightarrow> conn option \<Rightarrow> 'w state \<Rightarrow> unit outcome \<times> 'w state" where
  "showOptions L c s =
     (case c of
        None \<Rightarrow> (Panic nilDereference, s)
      | Some h \<Rightarrow>
          let s1 = emit [LogPrintf (''Options for device %s:'' @ [CHR 0x0A])
                           [VString (c_Device h)]] s
          in (Return (), showOptions_loop L h '''' (Conn_Options L h (world s1)) s1))"

subsection \<open>parseOptions\<close>

text \<open>The program's own \<open>Option\<close> struct, an entry of \<open>args\<close>, read as \<open>a.Name\<close>, \<open>a.Int\<close> and so on.\<close>

record Option_arg =
  a_Name :: string
  a_Type :: int
  a_Bool :: bool
  a_Int :: int
  a_Float :: "64 word"
  a_String :: string
  a_Auto :: bool

text \<open>The zero value of the struct: what a composite literal leaves in the fields it omits.\<close>

definition Option_zero :: Option_arg where
  "Option_zero =
     \<lparr>a_Name = '''', a_Type = 0, a_Bool = False, a_Int = 0, a_Float = 0, a_String = '''',
      a_Auto = False\<rparr>"

fun findOption :: "sane_Option list \<Rightarrow> string \<Rightarrow> error + sane_Option" where
  "findOption [] name = Inl UnknownOption"
| "findOption (o' # opts) name = (if o_Name o' = name then Inr o' else findOption opts name)"

text \<open>The value \<open>v\<close> that one round of the loop of \<open>parseOptions\<close> hands to \<open>c.SetOption\<close>.\<close>

definition optionValue :: "sane_Option \<Rightarrow> Option_arg \<Rightarrow> val" where
  "optionValue o' a =
     (if o_IsAutomatic o' \<and> a_Auto a then VAuto
      else (case o_Type o' of
              TypeBool \<Rightarrow> VBool (a_Bool a)
            | TypeInt \<Rightarrow> VInt (a_Int a)
            | TypeFloat \<Rightarrow> VFloat (a_Float a)
            | TypeString \<Rightarrow> VString (a_String a)
            | TypeButton \<Rightarrow> VNil))"

fun parseOptions ::
  "'w api \<Rightarrow> conn \<Rightarrow> Option_arg list \<Rightarrow> 'w state \<Rightarrow> error option outcome \<times> 'w state" where
  "parseOptions L c [] s = (Return None, s)"
| "parseOptions L c (a # args) s =
     (case findOption (Conn_Options L c (world s)) (a_Name a) of
        Inl err \<Rightarrow> (Panic err, s)
      | Inr o' \<Rightarrow>
          (case call_SetOption L c (o_Name o') (optionValue o' a) s of
             (Some err, s1) \<Rightarrow> (Return (Some err), s1)
           | (None, s1) \<Rightarrow> parseOptions L c args s1))"

subsection \<open>doScan\<close>

text \<open>The options \<open>doScan\<close> builds before it calls \<open>parseOptions\<close>.\<close>

definition doScan_options :: "Option_arg list" where
  "doScan_options =
     [Option_zero\<lparr>a_Name := ''resolution'', a_Int := 600\<rparr>,
      Option_zero\<lparr>a_Name := ''mode'', a_String := ''color''\<rparr>,
      Option_zero\<lparr>a_Name := ''preview'', a_Bool := False\<rparr>]"

text \<open>
  What \<open>doScan\<close> does between opening the stream and the deferred close of the stream.
  \<open>showOptions\<close> and \<open>parseOptions\<close> are given \<open>c\<close>; after \<open>showOptions\<close> has returned, \<open>c\<close>
  is not nil.
\<close>

definition doScan_body ::
  "'w api \<Rightarrow> conn option \<Rightarrow> EncodeFunc \<Rightarrow> os_File \<Rightarrow> 'w state \<Rightarrow> unit outcome \<times> 'w state" where
  "doScan_body L c enc stream s =
     (case showOptions L c s of
        (Panic err, s1) \<Rightarrow> (Panic err, s1)
      | (Return _, s1) \<Rightarrow>
          (case c of
             None \<Rightarrow> (Panic nilDereference, s1)
           | Some h \<Rightarrow>
               (case parseOptions L h doScan_options s1 of
                  (Panic err, s2) \<Rightarrow> (Panic err, s2)
                | (Return (Some err), s2) \<Rightarrow> (Panic err, s2)
                | (Return None, s2) \<Rightarrow>
                    (case call_ReadImage L h s2 of
                       ((img, Some err), s3) \<Rightarrow> (Panic err, s3)
                     | ((img, None), s3) \<Rightarrow>
                         (case call_Encode L enc stream img s3 of
                            (Some err, s4) \<Rightarrow> (Panic err, s4)
                          | (None, s4) \<Rightarrow> (Return (), s4))))))"

text \<open>
  \<open>doScan\<close>: the deferred function closes the stream when the body has returned and when it
  has panicked, and panics itself when the close fails.
\<close>

definition doScan ::
  "'w api \<Rightarrow> conn option \<Rightarrow> string \<Rightarrow> string list \<Rightarrow> 'w state \<Rightarrow> unit outcome \<times> 'w state"
where
  "doScan L c fileName optargs s =
     (case pathToEncoder (Map_ToLower L) fileName of
        Inl err \<Rightarrow> (Panic err, s)
      | Inr enc \<Rightarrow>
          (case call_Create L fileName s of
             ((stream, Some err), s1) \<Rightarrow> (Panic err, s1)
           | ((stream, None), s1) \<Rightarrow>
               (case doScan_body L c enc stream s1 of
                  (r, s2) \<Rightarrow>
                    (case call_FileClose L stream s2 of
                       (Some err, s3) \<Rightarrow> (Panic err, s3)
                     | (None, s3) \<Rightarrow> (r, s3)))))"

subsection \<open>listDevices and main\<close>

text \<open>
  The loop of \<open>listDevices\<close>. The error of \<open>openDevice\<close> is dropped; \<open>c.Close()\<close> is an
  ordinary statement after \<open>doScan\<close>, reached only when \<open>doScan\<close> returns.
\<close>

fun listDevices_loop :: "'w api \<Rightarrow> Device list \<Rightarrow> 'w state \<Rightarrow> unit outcome \<times> 'w state" where
  "listDevices_loop L [] s = (Return (), s)"
| "listDevices_loop L (d # ds) s =
     (let s1 = emit [LogPrintf ''Device %s is a %s %s %s''
                       [VString (d_Name d), VString (d_Vendor d), VString (d_Model d),
                        VString (d_Type d)]] s
      in case openDevice L (d_Name d) s1 of
           ((c, _), s2) \<Rightarrow>
             (case doScan L c ''1.jpg'' [] s2 of
                (Panic err, s3) \<Rightarrow> (Panic err, s3)
              | (Return _, s3) \<Rightarrow>
                  (case c of
                     None \<Rightarrow> (Panic nilDereference, s3)
                   | Some h \<Rightarrow> listDevices_loop L ds (call_Close L h s3))))"

definition listDevices :: "'w api \<Rightarrow> 'w state \<Rightarrow> unit outcome \<times> 'w state" where
  "listDevices L s =
     (case call_Devices L s of
        ((devs, _), s1) \<Rightarrow>
          listDevices_loop L devs
            (if length devs = 0 then emit [LogPrintf ''No available devices.'' []] s1 else s1))"

text \<open>\<open>main\<close>: \<open>sane.Exit\<close> is deferred, so it runs after \<open>listDevices\<close> returned or panicked.\<close>

definition main :: "'w api \<Rightarrow> 'w state \<Rightarrow> unit outcome \<times> 'w state" where
  "main L s =
     (let s0 = emit [LogPrintf ''ScanServer v1.0.0'' []] s
      in case call_Init L s0 of
           (Some err1, s1) \<Rightarrow> (Panic err1, s1)
         | (None, s1) \<Rightarrow>
             (case listDevices L s1 of (r, s2) \<Rightarrow> (r, call_Exit L s2)))"

subsection \<open>Replaying writes\<close>

text \<open>
  The world after a sequence of writes to a session, each applied to the world the one
  before it left.
\<close>

fun replayWrites :: "'w api \<Rightarrow> conn \<Rightarrow> (string \<times> val) list \<Rightarrow> 'w \<Rightarrow> 'w" where
  "replayWrites L c [] w = w"
| "replayWrites L c ((name, v) # ws) w = replayWrites L c ws (snd (Conn_SetOption L c name v w))"

section \<open>A test device\<close>

text \<open>
  A small world on which the program can be run: the enumerated devices, the names the
  library refuses to open, one option catalog, the writes the device rejects, the writes
  it took (latest first), whether acquisition fails, and the sessions that are open.
\<close>

record stub =
  st_devices :: "Device list"
  st_refused :: "string list"
  st_catalog :: "sane_Option list"
  st_rejected :: "(string \<times> val) list"
  st_values :: "(string \<times> val) list"
  st_readFails :: bool
  st_open :: "conn list"

definition stub_Open :: "string \<Rightarrow> stub \<Rightarrow> (conn option \<times> error option) \<times> stub" where
  "stub_Open name w =
     (if name \<in> set (map d_Name (st_devices w)) \<and> name \<notin> set (st_refused w)
      then ((Some \<lparr>c_Device = name, c_handle = 0\<rparr>, None),
            w\<lparr>st_open := \<lparr>c_Device = name, c_handle = 0\<rparr> # st_open w\<rparr>)
      else ((None, Some (LibError ''Invalid argument'')), w))"

definition stub_GetOption :: "conn \<Rightarrow> string \<Rightarrow> stub \<Rightarrow> (val \<times> error option) \<times> stub" where
  "stub_GetOption c name w =
     (case map_of (st_values w) name of
        Some v \<Rightarrow> ((v, None), w)
      | None \<Rightarrow> ((VNil, Some (LibError ''Invalid argument'')), w))"

definition stub_SetOption :: "conn \<Rightarrow> string \<Rightarrow> val \<Rightarrow> stub \<Rightarrow> error option \<times> stub" where
  "stub_SetOption c name v w =
     (if (name, v) \<in> set (st_rejected w) then (Some (LibError ''Invalid argument''), w)
      else (None, w\<lparr>st_values := (name, v) # st_values w\<rparr>))"

definition stub_ReadImage :: "conn \<Rightarrow> stub \<Rightarrow> (image \<times> error option) \<times> stub" where
  "stub_ReadImage c w =
     (if st_readFails w then (([], Some (LibError ''Error during device I/O'')), w)
      else (([0, 0, 0, 0], None), w))"

text \<open>
  The lowering of the library on the strings the test runs use: the rune U+0130 (capital
  I with a dot above, the bytes C4 B0 in UTF-8) becomes \<open>i\<close>, as \<open>unicode.ToLower\<close> has
  it, and an ASCII letter is lowered; every other byte is kept.
\<close>

fun stub_MapToLower :: "string \<Rightarrow> string" where
  "stub_MapToLower [] = []"
| "stub_MapToLower [c] = [lowerByte c]"
| "stub_MapToLower (c # d # cs) =
     (if c = CHR 0xC4 \<and> d = CHR 0xB0 then CHR ''i'' # stub_MapToLower cs
      else lowerByte c # stub_MapToLower (d # cs))"

definition stubApi :: "stub api" where
  "stubApi =
     \<lparr>sane_Init = (\<lambda>w. (None, w)),
      sane_Exit = (\<lambda>w. w),
      sane_Open = stub_Open,
      sane_Devices = (\<lambda>w. ((st_devices w, None), w)),
      Conn_Options = (\<lambda>c w. st_catalog w),
      Conn_GetOption = stub_GetOption,
      Conn_SetOption = stub_SetOption,
      Conn_ReadImage = stub_ReadImage,
      Conn_Close = (\<lambda>c w. w\<lparr>st_open := remove1 c (st_open w)\<rparr>),
      os_Create = (\<lambda>fileName w. ((3, None), w)),
      File_Close = (\<lambda>f w. (None, w)),
      Encode = (\<lambda>enc f img w. (None, w)),
      Map_ToLower = stub_MapToLower\<rparr>"

definition optResolution :: sane_Option where
  "optResolution =
     \<lparr>o_Name = ''resolution'', o_Group = ''Scan Mode'', o_Desc = ''Scan resolution'',
      o_Type = TypeInt, o_Unit = UnitDpi, o_ConstrSet = [],
      o_ConstrRange = Some \<lparr>r_Min = VInt 100, r_Max = VInt 1200, r_Quant = VInt 100\<rparr>,
      o_IsActive = True, o_IsSettable = True, o_IsAutomatic = False\<rparr>"

definition optMode :: sane_Option where
  "optMode =
     \<lparr>o_Name = ''mode'', o_Group = ''Scan Mode'', o_Desc = ''Scan mode'',
      o_Type = TypeString, o_Unit = UnitNone,
      o_ConstrSet = [VString ''color'', VString ''gray''], o_ConstrRange = None,
      o_IsActive = True, o_IsSettable = True, o_IsAutomatic = False\<rparr>"

definition optPreview :: sane_Option where
  "optPreview =
     \<lparr>o_Name = ''preview'', o_Group = ''Scan Mode'', o_Desc = ''Preview scan'',
      o_Type = TypeBool, o_Unit = UnitNone, o_ConstrSet = [], o_ConstrRange = None,
      o_IsActive = True, o_IsSettable = True, o_IsAutomatic = False\<rparr>"

definition optLampHours :: sane_Option where
  "optLampHours =
     \<lparr>o_Name = ''lamp-hours'', o_Group = ''Sensors'', o_Desc = ''Hours the lamp was on'',
      o_Type = TypeInt, o_Unit = UnitNone, o_ConstrSet = [], o_ConstrRange = None,
      o_IsActive = True, o_IsSettable = False, o_IsAutomatic = False\<rparr>"

definition devA :: Device where
  "devA = \<lparr>d_Name = ''test:0'', d_Vendor = ''Noname'', d_Model = ''frontend-tester'',
           d_Type = ''virtual device''\<rparr>"

definition devB :: Device where
  "devB = \<lparr>d_Name = ''test:1'', d_Vendor = ''Noname'', d_Model = ''frontend-tester'',
           d_Type = ''virtual device''\<rparr>"

definition connA :: conn where
  "connA = \<lparr>c_Device = ''test:0'', c_handle = 0\<rparr>"

definition stubWorld :: stub where
  "stubWorld =
     \<lparr>st_devices = [devA, devB], st_refused = [],
      st_catalog = [optResolution, optMode, optPreview, optLampHours],
      st_rejected = [], st_values = [], st_readFails = False, st_open = []\<rparr>"

definition start :: "stub \<Rightarrow> stub state" where
  "start w = \<lparr>world = w, trace = []\<rparr>"

text \<open>How often a session was closed on a trace.\<close>

definition closeCount :: "conn \<Rightarrow> event list \<Rightarrow> nat" where
  "closeCount c tr = length (filter (\<lambda>e. e = CallClose c) tr)"

text \<open>The same world, with a first device that cannot be opened.\<close>

definition refusingWorld :: stub where
  "refusingWorld = stubWorld\<lparr>st_refused := [''test:0'']\<rparr>"

text \<open>The same world, with a device that rejects the mode \<open>color\<close>.\<close>

definition rejectingWorld :: stub where
  "rejectingWorld = stubWorld\<lparr>st_rejected := [(''mode'', VString ''color'')]\<rparr>"

text \<open>The same world, with one device whose acquisition fails.\<close>

definition failingWorld :: stub where
  "failingWorld = stubWorld\<lparr>st_devices := [devA], st_readFails := True\<rparr>"

section \<open>Unfolding rules\<close>

lemmas call_defs = call_Init_def call_Exit_def call_Open_def call_Devices_def
  call_GetOption_def call_SetOption_def call_ReadImage_def call_Close_def call_Create_def
  call_FileClose_def call_Encode_def emit_def

lemmas stub_defs = stubApi_def stub_Open_def stub_GetOption_def stub_SetOption_def
  stub_ReadImage_def stubWorld_def start_def devA_def devB_def connA_def optResolution_def
  optMode_def optPreview_def optLampHours_def Option_zero_def refusingWorld_def rejectingWorld_def
  failingWorld_def doScan_options_def

section \<open>Properties of encoder selection\<close>

lemma ExtScan_takeWhile:
  "ExtScan cs suffix =
     (let pre = takeWhile (\<lambda>c. c \<noteq> CHR ''/'') cs in
      if CHR ''.'' \<in> set pre
      then CHR ''.'' # rev (takeWhile (\<lambda>c. c \<noteq> CHR ''.'') pre) @ suffix
      else [])"
  by (induction cs arbitrary: suffix) (auto simp: Let_def)

lemma Ext_spec_extension: "Ext path = spec_extension path"
proof -
  let ?pre = "takeWhile (\<lambda>c. c \<noteq> CHR ''/'') (rev path)"
  have "takeWhile (\<lambda>c. c \<noteq> CHR ''.'') (rev (rev ?pre)) = takeWhile (\<lambda>c. c \<noteq> CHR ''.'') ?pre"
    by simp
  then show ?thesis
    unfolding Ext_def spec_extension_def spec_fileName_def ExtScan_takeWhile Let_def
    by simp
qed

text \<open>Lowering two bytes gives the same byte exactly when they are the same letter.\<close>

lemma of_char_lowerByte:
  "(of_char (lowerByte c) :: nat) =
     (if 65 \<le> (of_char c :: nat) \<and> (of_char c :: nat) \<le> 90 then of_char c + 32 else of_char c)"
  by (simp add: lowerByte_def Let_def)

lemma sameLetter_lowerByte: "sameLetter c d \<longleftrightarrow> lowerByte c = lowerByte d"
proof -
  have "lowerByte c = lowerByte d \<longleftrightarrow> (of_char (lowerByte c) :: nat) = of_char (lowerByte d)"
    by simp
  also have "\<dots> \<longleftrightarrow> sameLetter c d"
    unfolding of_char_lowerByte sameLetter_def capitalOf_def
    using of_char_eq_iff [of c d, where ?'a = nat]
    by (auto split: if_splits)
  finally show ?thesis by simp
qed

lemma sameUpToCase_lowerByte: "sameUpToCase a b \<longleftrightarrow> map lowerByte a = map lowerByte b"
  unfolding sameUpToCase_def
proof (induction a arbitrary: b)
  case Nil
  then show ?case by auto
next
  case (Cons x a)
  then show ?case by (cases b) (simp_all add: sameLetter_lowerByte)
qed

lemma lowerByte_literals:
  "map lowerByte ''.png'' = ''.png''" "map lowerByte ''.jpg'' = ''.jpg''"
  "map lowerByte ''.jpeg'' = ''.jpeg''" "map lowerByte ''.tif'' = ''.tif''"
  "map lowerByte ''.tiff'' = ''.tiff''"
  by (simp_all add: lowerByte_def)

lemma pathToEncoder_ascii:
  assumes "isASCII (spec_extension path)"
  shows "pathToEncoder U path = spec_resolverFor path"
  using assms
  unfolding pathToEncoder_def spec_resolverFor_def ToLower_def Ext_spec_extension
    sameUpToCase_lowerByte lowerByte_literals Let_def
  by simp

lemma pathToEncoder_error: "pathToEncoder U path = Inl err \<Longrightarrow> err = UnsupportedFormat"
  by (auto simp: pathToEncoder_def Let_def split: if_splits)

text \<open>
  C7 (as the code has it). Encoder resolution depends on the path only through its
  file-name extension. When the bytes of the extension are all ASCII, the extension is
  compared without regard to case: \<open>.png\<close> gives the PNG encoder, \<open>.jpg\<close> and \<open>.jpeg\<close> the
  JPEG encoder, \<open>.tif\<close> and \<open>.tiff\<close> the TIFF encoder, and every other extension, the empty
  one included, gives the error \<open>unrecognized extension\<close>. When the extension has a byte
  outside ASCII, what is compared with these five names is the extension as the library
  lowers its runes.
\<close>

theorem pathToEncoder_by_extension:
  "(spec_extension path = spec_extension path' \<longrightarrow> pathToEncoder U path = pathToEncoder U path')
   \<and> (isASCII (spec_extension path) \<longrightarrow> pathToEncoder U path = spec_resolverFor path)
   \<and> (\<not> isASCII (spec_extension path) \<longrightarrow>
        pathToEncoder U path =
          (let ext = U (spec_extension path) in
           if ext = ''.png'' then Inr PNG
           else if ext = ''.jpg'' \<or> ext = ''.jpeg'' then Inr JPEG
           else if ext = ''.tif'' \<or> ext = ''.tiff'' then Inr TIFF
           else Inl UnsupportedFormat))"
proof (intro conjI impI)
  assume "spec_extension path = spec_extension path'"
  then show "pathToEncoder U path = pathToEncoder U path'"
    by (simp add: pathToEncoder_def Ext_spec_extension)
next
  assume "isASCII (spec_extension path)"
  then show "pathToEncoder U path = spec_resolverFor path"
    by (rule pathToEncoder_ascii)
next
  assume "\<not> isASCII (spec_extension path)"
  then show "pathToEncoder U path =
          (let ext = U (spec_extension path) in
           if ext = ''.png'' then Inr PNG
           else if ext = ''.jpg'' \<or> ext = ''.jpeg'' then Inr JPEG
           else if ext = ''.tif'' \<or> ext = ''.tiff'' then Inr TIFF
           else Inl UnsupportedFormat)"
    by (simp add: pathToEncoder_def ToLower_def Ext_spec_extension)
qed

theorem pathToEncoder_by_extension_witness:
  "spec_extension ''SCAN.JPG'' = spec_extension ''out/page.JPG''
   \<and> isASCII (spec_extension ''SCAN.JPG'')
   \<and> pathToEncoder stub_MapToLower ''SCAN.JPG'' = pathToEncoder stub_MapToLower ''out/page.JPG''
   \<and> pathToEncoder stub_MapToLower ''SCAN.JPG'' = Inr JPEG
   \<and> \<not> isASCII (spec_extension (''x.t'' @ [CHR 0xC4, CHR 0xB0] @ ''f''))
   \<and> pathToEncoder stub_MapToLower (''x.t'' @ [CHR 0xC4, CHR 0xB0] @ ''f'') = Inr TIFF"
proof -
  have e: "spec_extension ''SCAN.JPG'' = ''.JPG''" "spec_extension ''out/page.JPG'' = ''.JPG''"
    "spec_extension (''x.t'' @ [CHR 0xC4, CHR 0xB0] @ ''f'') = ''.t'' @ [CHR 0xC4, CHR 0xB0] @ ''f''"
    by (simp_all add: spec_extension_def spec_fileName_def)
  have h1: "spec_extension ''SCAN.JPG'' = spec_extension ''out/page.JPG''"
    by (simp add: e)
  have h2: "isASCII (spec_extension ''SCAN.JPG'')"
    unfolding e by code_simp
  have h3: "\<not> isASCII (spec_extension (''x.t'' @ [CHR 0xC4, CHR 0xB0] @ ''f''))"
    unfolding e by code_simp
  have r: "spec_resolverFor ''SCAN.JPG'' = Inr JPEG"
    by code_simp
  have l: "stub_MapToLower (''.t'' @ [CHR 0xC4, CHR 0xB0] @ ''f'') = ''.tif''"
    by code_simp
  note a = pathToEncoder_by_extension [of "''SCAN.JPG''" "''out/page.JPG''" stub_MapToLower]
  note b = pathToEncoder_by_extension
    [of "''x.t'' @ [CHR 0xC4, CHR 0xB0] @ ''f''" "''x''" stub_MapToLower]
  from a h1 have c1: "pathToEncoder stub_MapToLower ''SCAN.JPG''
                        = pathToEncoder stub_MapToLower ''out/page.JPG''"
    by blast
  from a h2 r have c2: "pathToEncoder stub_MapToLower ''SCAN.JPG'' = Inr JPEG"
    by simp
  from b h3 have "pathToEncoder stub_MapToLower (''x.t'' @ [CHR 0xC4, CHR 0xB0] @ ''f'') =
          (let ext = stub_MapToLower (spec_extension (''x.t'' @ [CHR 0xC4, CHR 0xB0] @ ''f'')) in
           if ext = ''.png'' then Inr PNG
           else if ext = ''.jpg'' \<or> ext = ''.jpeg'' then Inr JPEG
           else if ext = ''.tif'' \<or> ext = ''.tiff'' then Inr TIFF
           else Inl UnsupportedFormat)"
    by blast
  then have c3: "pathToEncoder stub_MapToLower (''x.t'' @ [CHR 0xC4, CHR 0xB0] @ ''f'') = Inr TIFF"
    unfolding e l by simp
  from h1 h2 h3 c1 c2 c3 show ?thesis by blast
qed

text \<open>
  C7 as stated fails: the extension of \<open>x.t\<close>, U+0130, \<open>f\<close> is not \<open>.tif\<close> or \<open>.tiff\<close> up to
  case (its third letter is two bytes, neither of them \<open>i\<close> or \<open>I\<close>), so by the rule of
  the claim the path has no encoder; the program lowers U+0130 to \<open>i\<close> and selects the
  TIFF encoder.
\<close>

theorem dotted_capital_I_selects_TIFF:
  "spec_extension (''x.t'' @ [CHR 0xC4, CHR 0xB0] @ ''f'') = ''.t'' @ [CHR 0xC4, CHR 0xB0] @ ''f''
   \<and> \<not> sameUpToCase (''.t'' @ [CHR 0xC4, CHR 0xB0] @ ''f'') ''.tif''
   \<and> \<not> sameUpToCase (''.t'' @ [CHR 0xC4, CHR 0xB0] @ ''f'') ''.tiff''
   \<and> spec_resolverFor (''x.t'' @ [CHR 0xC4, CHR 0xB0] @ ''f'') = Inl UnsupportedFormat
   \<and> pathToEncoder stub_MapToLower (''x.t'' @ [CHR 0xC4, CHR 0xB0] @ ''f'') = Inr TIFF"
  by code_simp

lemma pathToEncoder_examples:
  "pathToEncoder U ''scan.png'' = Inr PNG \<and> pathToEncoder U ''SCAN.JPG'' = Inr JPEG
   \<and> pathToEncoder U ''out/page.Jpeg'' = Inr JPEG \<and> pathToEncoder U ''a.b/c.TIF'' = Inr TIFF
   \<and> pathToEncoder U ''x.tiff'' = Inr TIFF \<and> pathToEncoder U ''scan.bmp'' = Inl UnsupportedFormat
   \<and> pathToEncoder U ''scan'' = Inl UnsupportedFormat
   \<and> pathToEncoder U ''dir.png/scan'' = Inl UnsupportedFormat"
proof -
  have "isASCII (spec_extension ''scan.png'')" "isASCII (spec_extension ''SCAN.JPG'')"
    "isASCII (spec_extension ''out/page.Jpeg'')" "isASCII (spec_extension ''a.b/c.TIF'')"
    "isASCII (spec_extension ''x.tiff'')" "isASCII (spec_extension ''scan.bmp'')"
    "isASCII (spec_extension ''scan'')" "isASCII (spec_extension ''dir.png/scan'')"
    by code_simp+
  moreover have "spec_resolverFor ''scan.png'' = Inr PNG \<and> spec_resolverFor ''SCAN.JPG'' = Inr JPEG
   \<and> spec_resolverFor ''out/page.Jpeg'' = Inr JPEG \<and> spec_resolverFor ''a.b/c.TIF'' = Inr TIFF
   \<and> spec_resolverFor ''x.tiff'' = Inr TIFF \<and> spec_resolverFor ''scan.bmp'' = Inl UnsupportedFormat
   \<and> spec_resolverFor ''scan'' = Inl UnsupportedFormat
   \<and> spec_resolverFor ''dir.png/scan'' = Inl UnsupportedFormat"
    by code_simp
  ultimately show ?thesis by (simp add: pathToEncoder_ascii)
qed

section \<open>Properties of openDevice\<close>

text \<open>
  C8. When the open by the given identifier succeeds, \<open>openDevice\<close> returns the session
  of that open, and the open is the only call it makes: the devices are not enumerated.
\<close>

theorem openDevice_exact_match:
  assumes "sane_Open L name (world s) = ((c, None), w)"
  shows "openDevice L name s =
           ((c, None), \<lparr>world = w, trace = trace s @ [CallOpen name None]\<rparr>)"
  using assms by (simp add: openDevice_def call_Open_def)

theorem openDevice_exact_match_witness:
  "sane_Open stubApi ''test:0'' (world (start stubWorld))
     = ((Some connA, None), stubWorld\<lparr>st_open := [connA]\<rparr>)
   \<and> openDevice stubApi ''test:0'' (start stubWorld)
     = ((Some connA, None),
        \<lparr>world = stubWorld\<lparr>st_open := [connA]\<rparr>, trace = [CallOpen ''test:0'' None]\<rparr>)"
proof -
  have h: "sane_Open stubApi ''test:0'' (world (start stubWorld))
     = ((Some connA, None), stubWorld\<lparr>st_open := [connA]\<rparr>)"
    by (simp add: stub_defs)
  show ?thesis
    using h openDevice_exact_match [OF h] by (simp add: start_def)
qed

lemma openDevice_loop_skip:
  "\<forall>x \<in> set before. \<not> Contains (d_Name x) name \<Longrightarrow>
   openDevice_loop L name (before @ rest) s = openDevice_loop L name rest s"
  by (induction before) auto

text \<open>
  C9. When the open by the given identifier fails, the enumeration succeeds, and the first
  enumerated device whose name contains the identifier cannot be opened, \<open>openDevice\<close>
  returns the error of that open, and its calls are the first open, the enumeration and
  that one open: no later device is tried, whatever its name.
\<close>

theorem openDevice_first_match_fails:
  assumes "sane_Open L name (world s) = ((c1, Some err1), w1)"
    and "sane_Devices L w1 = ((devs, None), w2)"
    and "devs = before @ d # after"
    and "\<forall>x \<in> set before. \<not> Contains (d_Name x) name"
    and "Contains (d_Name d) name"
    and "sane_Open L (d_Name d) w2 = ((c2, Some err2), w3)"
  shows "openDevice L name s =
           ((c2, Some err2),
            \<lparr>world = w3,
             trace = trace s @ [CallOpen name (Some err1), CallDevices None,
                                CallOpen (d_Name d) (Some err2)]\<rparr>)"
  using assms
  by (simp add: openDevice_def call_Open_def call_Devices_def openDevice_loop_skip)

theorem openDevice_first_match_fails_witness:
  "openDevice stubApi ''test'' (start refusingWorld) =
     ((None, Some (LibError ''Invalid argument'')),
      \<lparr>world = refusingWorld,
       trace = [CallOpen ''test'' (Some (LibError ''Invalid argument'')), CallDevices None,
                CallOpen ''test:0'' (Some (LibError ''Invalid argument''))]\<rparr>)
   \<and> Contains (d_Name devB) ''test''"
proof -
  have a: "sane_Open stubApi ''test'' (world (start refusingWorld))
             = ((None, Some (LibError ''Invalid argument'')), refusingWorld)"
    by (simp add: stub_defs)
  have b: "sane_Devices stubApi refusingWorld = (([devA, devB], None), refusingWorld)"
    by (simp add: stub_defs)
  have c: "[devA, devB] = [] @ devA # [devB]" by simp
  have d: "\<forall>x \<in> set []. \<not> Contains (d_Name x) ''test''" by simp
  have e: "Contains (d_Name devA) ''test''" by (simp add: devA_def)
  have f: "sane_Open stubApi (d_Name devA) refusingWorld
             = ((None, Some (LibError ''Invalid argument'')), refusingWorld)"
    by (simp add: stub_defs)
  have g: "Contains (d_Name devB) ''test''" by (simp add: devB_def)
  show ?thesis
    using openDevice_first_match_fails [OF a b c d e f] g
    by (simp add: start_def devA_def)
qed

section \<open>Properties of parseOptions\<close>

lemma findOption_name: "findOption opts name = Inr o' \<Longrightarrow> o_Name o' = name"
  by (induction opts) (auto split: if_splits)

lemma findOption_absent:
  "name \<notin> o_Name ` set opts \<Longrightarrow> findOption opts name = Inl UnknownOption"
  by (induction opts) auto

lemma findOption_first:
  "name \<notin> o_Name ` set before \<Longrightarrow> o_Name o' = name \<Longrightarrow>
   findOption (before @ o' # after) name = Inr o'"
  by (induction before) auto

lemma parseOptions_found:
  assumes "findOption (Conn_Options L c (world s)) (a_Name a) = Inr o'"
  shows "parseOptions L c (a # args) s =
           (case call_SetOption L c (a_Name a) (optionValue o' a) s of
              (Some err, s1) \<Rightarrow> (Return (Some err), s1)
            | (None, s1) \<Rightarrow> parseOptions L c args s1)"
  using assms findOption_name [OF assms] by simp

lemma parseOptions_append:
  "parseOptions L c before s = (Return None, s1) \<Longrightarrow>
   parseOptions L c (before @ rest) s = parseOptions L c rest s1"
proof (induction before arbitrary: s)
  case Nil
  then show ?case by simp
next
  case (Cons a before)
  then show ?case
    by (auto split: sum.splits option.splits prod.splits)
qed

text \<open>
  C5. \<open>parseOptions\<close> writes the entries in the order of the request: the writes it
  issues are those of an initial segment of the request, one write per entry, in order,
  and the world it leaves is the one those writes produce. Every write but the last
  succeeded. When it returns an error, the last write issued is the one that failed with
  that error: the entries before it were written and stay written, and no later entry is
  attempted. When it returns no error, every entry was written.
\<close>

theorem parseOptions_fail_fast:
  assumes "parseOptions L c args s = (r, s')"
  shows "\<exists>ws. length ws \<le> length args
     \<and> trace s' = trace s @ map (\<lambda>(a, v, err). CallSetOption c (a_Name a) v err) (zip args ws)
     \<and> world s' = replayWrites L c (map (\<lambda>(a, v, err). (a_Name a, v)) (zip args ws)) (world s)
     \<and> (\<forall>w \<in> set (butlast ws). snd w = None)
     \<and> (case r of
           Return None \<Rightarrow> length ws = length args \<and> (\<forall>w \<in> set ws. snd w = None)
         | Return (Some err) \<Rightarrow> ws \<noteq> [] \<and> snd (last ws) = Some err
         | Panic err \<Rightarrow> length ws < length args \<and> (\<forall>w \<in> set ws. snd w = None))"
  using assms
proof (induction args arbitrary: s)
  case Nil
  then show ?case by auto
next
  case (Cons a args)
  show ?case
  proof (cases "findOption (Conn_Options L c (world s)) (a_Name a)")
    case (Inl err)
    with Cons.prems have "r = Panic err" "s' = s" by auto
    then show ?thesis by (intro exI [of _ "[]"]) simp
  next
    case (Inr o')
    obtain e w where w: "Conn_SetOption L c (a_Name a) (optionValue o' a) (world s) = (e, w)"
      by (cases "Conn_SetOption L c (a_Name a) (optionValue o' a) (world s)")
    let ?s1 = "\<lparr>world = w, trace = trace s @ [CallSetOption c (a_Name a) (optionValue o' a) e]\<rparr>"
    have call: "call_SetOption L c (a_Name a) (optionValue o' a) s = (e, ?s1)"
      by (simp add: call_SetOption_def w)
    have step: "parseOptions L c (a # args) s =
        (case e of Some err \<Rightarrow> (Return (Some err), ?s1) | None \<Rightarrow> parseOptions L c args ?s1)"
      unfolding parseOptions_found [OF Inr] call by simp
    show ?thesis
    proof (cases e)
      case (Some err)
      with Cons.prems step have "r = Return (Some err)" "s' = ?s1"
        by (simp_all del: parseOptions.simps)
      then show ?thesis
        using w Some by (intro exI [of _ "[(optionValue o' a, Some err)]"]) simp
    next
      case None
      with Cons.prems step have rest: "parseOptions L c args ?s1 = (r, s')"
        by (simp del: parseOptions.simps)
      from Cons.IH [OF rest] obtain ws where ws:
        "length ws \<le> length args"
        "trace s' = trace ?s1 @ map (\<lambda>(a, v, err). CallSetOption c (a_Name a) v err) (zip args ws)"
        "world s' = replayWrites L c (map (\<lambda>(a, v, err). (a_Name a, v)) (zip args ws)) (world ?s1)"
        "\<forall>w \<in> set (butlast ws). snd w = None"
        "case r of
           Return None \<Rightarrow> length ws = length args \<and> (\<forall>w \<in> set ws. snd w = None)
         | Return (Some err) \<Rightarrow> ws \<noteq> [] \<and> snd (last ws) = Some err
         | Panic err \<Rightarrow> length ws < length args \<and> (\<forall>w \<in> set ws. snd w = None)"
        by blast
      show ?thesis
        using ws w None
        by (intro exI [of _ "(optionValue o' a, None) # ws"])
           (auto split: outcome.splits option.splits)
    qed
  qed
qed

theorem parseOptions_fail_fast_witness:
  "parseOptions stubApi connA doScan_options (start rejectingWorld) =
     (Return (Some (LibError ''Invalid argument'')),
      \<lparr>world = rejectingWorld\<lparr>st_values := [(''resolution'', VInt 600)]\<rparr>,
       trace = [CallSetOption connA ''resolution'' (VInt 600) None,
                CallSetOption connA ''mode'' (VString ''color'')
                  (Some (LibError ''Invalid argument''))]\<rparr>)
   \<and> (\<exists>ws. length ws \<le> length doScan_options
         \<and> [CallSetOption connA ''resolution'' (VInt 600) None,
             CallSetOption connA ''mode'' (VString ''color'')
               (Some (LibError ''Invalid argument''))]
            = map (\<lambda>(a, v, err). CallSetOption connA (a_Name a) v err) (zip doScan_options ws)
         \<and> rejectingWorld\<lparr>st_values := [(''resolution'', VInt 600)]\<rparr>
            = replayWrites stubApi connA
                (map (\<lambda>(a, v, err). (a_Name a, v)) (zip doScan_options ws)) rejectingWorld
         \<and> (\<forall>w \<in> set (butlast ws). snd w = None)
         \<and> ws \<noteq> [] \<and> snd (last ws) = Some (LibError ''Invalid argument''))"
proof -
  have h: "parseOptions stubApi connA doScan_options (start rejectingWorld) =
     (Return (Some (LibError ''Invalid argument'')),
      \<lparr>world = rejectingWorld\<lparr>st_values := [(''resolution'', VInt 600)]\<rparr>,
       trace = [CallSetOption connA ''resolution'' (VInt 600) None,
                CallSetOption connA ''mode'' (VString ''color'')
                  (Some (LibError ''Invalid argument''))]\<rparr>)"
    by (simp add: stub_defs call_defs optionValue_def)
  show ?thesis
    using h parseOptions_fail_fast [OF h] by (simp add: start_def)
qed

text \<open>
  C3 (as the code has it). When the entries before an entry have been written and the name
  of that entry is absent from the catalog the session then reports, \<open>parseOptions\<close>
  does not return: it panics with the error \<open>no such option\<close>, in the state the earlier
  writes left, without a write for this entry or for a later one.
\<close>

theorem parseOptions_unknown_option_panics:
  assumes "parseOptions L c before s = (Return None, s1)"
    and "a_Name a \<notin> o_Name ` set (Conn_Options L c (world s1))"
  shows "parseOptions L c (before @ a # after) s = (Panic UnknownOption, s1)"
  using assms by (simp add: parseOptions_append findOption_absent)

theorem parseOptions_unknown_option_panics_witness:
  "parseOptions stubApi connA [Option_zero\<lparr>a_Name := ''resolution'', a_Int := 600\<rparr>]
       (start stubWorld)
     = (Return None,
        \<lparr>world = stubWorld\<lparr>st_values := [(''resolution'', VInt 600)]\<rparr>,
         trace = [CallSetOption connA ''resolution'' (VInt 600) None]\<rparr>)
   \<and> parseOptions stubApi connA
       ([Option_zero\<lparr>a_Name := ''resolution'', a_Int := 600\<rparr>]
        @ Option_zero\<lparr>a_Name := ''contrast'', a_Int := 5\<rparr>
        # [Option_zero\<lparr>a_Name := ''preview''\<rparr>])
       (start stubWorld)
     = (Panic UnknownOption,
        \<lparr>world = stubWorld\<lparr>st_values := [(''resolution'', VInt 600)]\<rparr>,
         trace = [CallSetOption connA ''resolution'' (VInt 600) None]\<rparr>)"
proof -
  let ?s1 = "\<lparr>world = stubWorld\<lparr>st_values := [(''resolution'', VInt 600)]\<rparr>,
              trace = [CallSetOption connA ''resolution'' (VInt 600) None]\<rparr>"
  have h1: "parseOptions stubApi connA [Option_zero\<lparr>a_Name := ''resolution'', a_Int := 600\<rparr>]
       (start stubWorld) = (Return None, ?s1)"
    by (simp add: stub_defs call_defs optionValue_def)
  have h2: "a_Name (Option_zero\<lparr>a_Name := ''contrast'', a_Int := 5\<rparr>)
              \<notin> o_Name ` set (Conn_Options stubApi connA (world ?s1))"
    by (simp add: stub_defs)
  show ?thesis
    using h1 parseOptions_unknown_option_panics [OF h1 h2] by simp
qed

text \<open>
  C3 as stated fails: a request that names an option the catalog does not have ends in a
  panic, not in an error returned to the caller.
\<close>

theorem unknown_option_is_a_panic:
  "parseOptions stubApi connA [Option_zero\<lparr>a_Name := ''contrast'', a_Int := 5\<rparr>] (start stubWorld)
     = (Panic UnknownOption, start stubWorld)"
  by (simp add: stub_defs)

text \<open>
  C10. When an entry asks for the automatic value and the option its name resolves to does
  not support it, \<open>parseOptions\<close> raises no error of its own: it issues the write of the
  entry's field for the option's type (the Bool, Int, Float or String field; the nil
  value for a button), which is the zero value of that field when the entry was built
  without it, and goes on or returns as the device answers that write.
\<close>

theorem parseOptions_auto_not_supported:
  assumes "findOption (Conn_Options L c (world s)) (a_Name a) = Inr o'"
    and "a_Auto a" and "\<not> o_IsAutomatic o'"
  shows "\<exists>v err s1.
       v = (case o_Type o' of
              TypeBool \<Rightarrow> VBool (a_Bool a)
            | TypeInt \<Rightarrow> VInt (a_Int a)
            | TypeFloat \<Rightarrow> VFloat (a_Float a)
            | TypeString \<Rightarrow> VString (a_String a)
            | TypeButton \<Rightarrow> VNil)
     \<and> (a = Option_zero\<lparr>a_Name := a_Name a, a_Auto := True\<rparr> \<longrightarrow>
          v = (case o_Type o' of
                 TypeBool \<Rightarrow> VBool False
               | TypeInt \<Rightarrow> VInt 0
               | TypeFloat \<Rightarrow> VFloat 0
               | TypeString \<Rightarrow> VString ''''
               | TypeButton \<Rightarrow> VNil))
     \<and> Conn_SetOption L c (a_Name a) v (world s) = (err, world s1)
     \<and> trace s1 = trace s @ [CallSetOption c (a_Name a) v err]
     \<and> parseOptions L c (a # args) s =
         (case err of Some e \<Rightarrow> (Return (Some e), s1) | None \<Rightarrow> parseOptions L c args s1)"
proof -
  let ?v = "optionValue o' a"
  obtain err w where w: "Conn_SetOption L c (a_Name a) ?v (world s) = (err, w)"
    by (cases "Conn_SetOption L c (a_Name a) ?v (world s)")
  let ?s1 = "\<lparr>world = w, trace = trace s @ [CallSetOption c (a_Name a) ?v err]\<rparr>"
  have call: "call_SetOption L c (a_Name a) ?v s = (err, ?s1)"
    by (simp add: call_SetOption_def w)
  have v: "?v = (case o_Type o' of
              TypeBool \<Rightarrow> VBool (a_Bool a)
            | TypeInt \<Rightarrow> VInt (a_Int a)
            | TypeFloat \<Rightarrow> VFloat (a_Float a)
            | TypeString \<Rightarrow> VString (a_String a)
            | TypeButton \<Rightarrow> VNil)"
    using assms(3) by (simp add: optionValue_def)
  have zero: "a = Option_zero\<lparr>a_Name := a_Name a, a_Auto := True\<rparr> \<longrightarrow>
          ?v = (case o_Type o' of
                 TypeBool \<Rightarrow> VBool False
               | TypeInt \<Rightarrow> VInt 0
               | TypeFloat \<Rightarrow> VFloat 0
               | TypeString \<Rightarrow> VString ''''
               | TypeButton \<Rightarrow> VNil)"
  proof
    assume a: "a = Option_zero\<lparr>a_Name := a_Name a, a_Auto := True\<rparr>"
    have "a_Bool a = False \<and> a_Int a = 0 \<and> a_Float a = 0 \<and> a_String a = ''''"
      by (subst (1 2 3 4) a) (simp add: Option_zero_def)
    then show "?v = (case o_Type o' of
                 TypeBool \<Rightarrow> VBool False
               | TypeInt \<Rightarrow> VInt 0
               | TypeFloat \<Rightarrow> VFloat 0
               | TypeString \<Rightarrow> VString ''''
               | TypeButton \<Rightarrow> VNil)"
      unfolding v by (simp split: Type.split)
  qed
  have step: "parseOptions L c (a # args) s =
         (case err of Some e \<Rightarrow> (Return (Some e), ?s1) | None \<Rightarrow> parseOptions L c args ?s1)"
    unfolding parseOptions_found [OF assms(1)] call by simp
  show ?thesis
    using v zero w step
    by (intro exI [of _ ?v] exI [of _ err] exI [of _ ?s1]) (simp del: parseOptions.simps)
qed

theorem parseOptions_auto_not_supported_witness:
  "findOption (Conn_Options stubApi connA (world (start stubWorld)))
       (a_Name (Option_zero\<lparr>a_Name := ''resolution'', a_Auto := True\<rparr>)) = Inr optResolution
   \<and> a_Auto (Option_zero\<lparr>a_Name := ''resolution'', a_Auto := True\<rparr>)
   \<and> \<not> o_IsAutomatic optResolution
   \<and> (\<exists>err s1. trace s1 = [CallSetOption connA ''resolution'' (VInt 0) err]
         \<and> parseOptions stubApi connA [Option_zero\<lparr>a_Name := ''resolution'', a_Auto := True\<rparr>]
              (start stubWorld)
            = (case err of Some e \<Rightarrow> (Return (Some e), s1) | None \<Rightarrow> (Return None, s1)))"
proof -
  let ?a = "Option_zero\<lparr>a_Name := ''resolution'', a_Auto := True\<rparr>"
  have h1: "findOption (Conn_Options stubApi connA (world (start stubWorld))) (a_Name ?a)
              = Inr optResolution"
    by (simp add: stub_defs)
  have h2: "a_Auto ?a" by simp
  have h3: "\<not> o_IsAutomatic optResolution" by (simp add: optResolution_def)
  from parseOptions_auto_not_supported [OF h1 h2 h3, of "[]"] obtain v err s1 where
    v: "?a = Option_zero\<lparr>a_Name := a_Name ?a, a_Auto := True\<rparr> \<longrightarrow>
          v = (case o_Type optResolution of
                 TypeBool \<Rightarrow> VBool False
               | TypeInt \<Rightarrow> VInt 0
               | TypeFloat \<Rightarrow> VFloat 0
               | TypeString \<Rightarrow> VString ''''
               | TypeButton \<Rightarrow> VNil)"
    and t: "trace s1 = trace (start stubWorld) @ [CallSetOption connA (a_Name ?a) v err]"
    and p: "parseOptions stubApi connA [?a] (start stubWorld) =
         (case err of Some e \<Rightarrow> (Return (Some e), s1)
          | None \<Rightarrow> parseOptions stubApi connA [] s1)"
    by blast
  from v have "v = VInt 0" by (simp add: optResolution_def)
  with t p have "trace s1 = [CallSetOption connA ''resolution'' (VInt 0) err]
         \<and> parseOptions stubApi connA [?a] (start stubWorld)
            = (case err of Some e \<Rightarrow> (Return (Some e), s1) | None \<Rightarrow> (Return None, s1))"
    by (simp add: start_def del: parseOptions.simps(2) split: option.split)
  then show ?thesis using h1 h2 h3 by blast
qed

text \<open>
  C1 (as the code has it). \<open>parseOptions\<close> does not look at the range or the
  quantization step of an option: for an integer or real option with a range and a
  nonzero step, the explicit value of the entry is handed to the device unchanged,
  whatever the value is, and the entry is accepted exactly when the device accepts the
  write.
\<close>

theorem parseOptions_range_not_enforced:
  assumes "findOption (Conn_Options L c (world s)) (a_Name a) = Inr o'"
    and "o_ConstrRange o' = Some \<lparr>r_Min = lo, r_Max = hi, r_Quant = q\<rparr>"
    and "q \<noteq> VInt 0" and "neqFloatZero q"
    and "o_Type o' = TypeInt \<or> o_Type o' = TypeFloat" and "\<not> a_Auto a"
    and "v = (if o_Type o' = TypeInt then VInt (a_Int a) else VFloat (a_Float a))"
  shows "\<exists>err s1.
       Conn_SetOption L c (a_Name a) v (world s) = (err, world s1)
     \<and> trace s1 = trace s @ [CallSetOption c (a_Name a) v err]
     \<and> parseOptions L c (a # args) s =
         (case err of Some e \<Rightarrow> (Return (Some e), s1) | None \<Rightarrow> parseOptions L c args s1)"
proof -
  have v: "optionValue o' a = v"
    using assms(5-7) by (auto simp: optionValue_def)
  obtain err w where w: "Conn_SetOption L c (a_Name a) v (world s) = (err, w)"
    by (cases "Conn_SetOption L c (a_Name a) v (world s)")
  let ?s1 = "\<lparr>world = w, trace = trace s @ [CallSetOption c (a_Name a) v err]\<rparr>"
  have call: "call_SetOption L c (a_Name a) v s = (err, ?s1)"
    by (simp add: call_SetOption_def w)
  have step: "parseOptions L c (a # args) s =
         (case err of Some e \<Rightarrow> (Return (Some e), ?s1) | None \<Rightarrow> parseOptions L c args ?s1)"
    unfolding parseOptions_found [OF assms(1)] v call by simp
  show ?thesis
    using w step by (intro exI [of _ err] exI [of _ ?s1]) (simp del: parseOptions.simps)
qed

theorem parseOptions_range_not_enforced_witness:
  "parseOptions stubApi connA
     [Option_zero\<lparr>a_Name := ''resolution'', a_Int := 5000\<rparr>,
      Option_zero\<lparr>a_Name := ''preview'', a_Bool := True\<rparr>] (start stubWorld)
   = (Return None,
      \<lparr>world = stubWorld\<lparr>st_values := [(''preview'', VBool True), (''resolution'', VInt 5000)]\<rparr>,
       trace = [CallSetOption connA ''resolution'' (VInt 5000) None,
                CallSetOption connA ''preview'' (VBool True) None]\<rparr>)"
proof -
  let ?a = "Option_zero\<lparr>a_Name := ''resolution'', a_Int := 5000\<rparr>"
  let ?b = "Option_zero\<lparr>a_Name := ''preview'', a_Bool := True\<rparr>"
  have h1: "findOption (Conn_Options stubApi connA (world (start stubWorld))) (a_Name ?a)
              = Inr optResolution"
    by (simp add: stub_defs)
  have h2: "o_ConstrRange optResolution
              = Some \<lparr>r_Min = VInt 100, r_Max = VInt 1200, r_Quant = VInt 100\<rparr>"
    by (simp add: optResolution_def)
  have h3: "VInt 100 \<noteq> VInt 0" by simp
  have h4: "neqFloatZero (VInt 100)" by (simp add: neqFloatZero_def)
  have h5: "o_Type optResolution = TypeInt \<or> o_Type optResolution = TypeFloat"
    by (simp add: optResolution_def)
  have h6: "\<not> a_Auto ?a" by (simp add: Option_zero_def)
  have h7: "VInt 5000
              = (if o_Type optResolution = TypeInt then VInt (a_Int ?a) else VFloat (a_Float ?a))"
    by (simp add: optResolution_def)
  from parseOptions_range_not_enforced [OF h1 h2 h3 h4 h5 h6 h7, of "[?b]"] obtain err s1 where
    w: "Conn_SetOption stubApi connA (a_Name ?a) (VInt 5000) (world (start stubWorld))
          = (err, world s1)"
    and t: "trace s1 = trace (start stubWorld) @ [CallSetOption connA (a_Name ?a) (VInt 5000) err]"
    and p: "parseOptions stubApi connA [?a, ?b] (start stubWorld) =
         (case err of Some e \<Rightarrow> (Return (Some e), s1)
          | None \<Rightarrow> parseOptions stubApi connA [?b] s1)"
    by blast
  from w have err: "err = None"
    and w1: "world s1 = stubWorld\<lparr>st_values := [(''resolution'', VInt 5000)]\<rparr>"
    by (simp_all add: stub_defs)
  from t err have t1: "trace s1 = [CallSetOption connA ''resolution'' (VInt 5000) None]"
    by (simp add: start_def)
  have s1: "s1 = \<lparr>world = stubWorld\<lparr>st_values := [(''resolution'', VInt 5000)]\<rparr>,
                 trace = [CallSetOption connA ''resolution'' (VInt 5000) None]\<rparr>"
    using w1 t1 by (cases s1) simp
  show ?thesis
    unfolding p err s1 by (simp add: stub_defs call_defs optionValue_def)
qed

text \<open>
  C1 as stated fails: the value 650 is off the grid of the range 100..1200 in steps of
  100, and it is written to the device all the same; a device that takes it makes the
  request succeed.
\<close>

theorem off_grid_value_is_written:
  "findOption (st_catalog stubWorld) ''resolution'' = Inr optResolution
   \<and> o_ConstrRange optResolution = Some \<lparr>r_Min = VInt 100, r_Max = VInt 1200, r_Quant = VInt 100\<rparr>
   \<and> (650 - 100) mod 100 \<noteq> (0::int)
   \<and> parseOptions stubApi connA [Option_zero\<lparr>a_Name := ''resolution'', a_Int := 650\<rparr>]
        (start stubWorld)
      = (Return None,
         \<lparr>world = stubWorld\<lparr>st_values := [(''resolution'', VInt 650)]\<rparr>,
          trace = [CallSetOption connA ''resolution'' (VInt 650) None]\<rparr>)"
  by (simp add: stub_defs call_defs optionValue_def)

lemma showOptions_loop_Options_irrelevant:
  "showOptions_loop (L\<lparr>Conn_Options := f\<rparr>) c g opts s = showOptions_loop L c g opts s"
  by (induction opts arbitrary: g s) (simp_all add: call_GetOption_def)

lemma showOptions_loop_skip:
  "\<not> o_IsSettable o' \<Longrightarrow>
   showOptions_loop L c g (before @ o' # after) s = showOptions_loop L c g (before @ after) s"
  by (induction before arbitrary: g s) (simp_all split: prod.splits)

text \<open>
  C2 (as the code has it). \<open>showOptions\<close> skips an option that is not settable: the
  listing is the listing of the catalog without it. \<open>parseOptions\<close> does not look at the
  flag: an entry whose name resolves to such an option is written to the device like any
  other.
\<close>

theorem nonsettable_skipped_by_listing_only:
  assumes "Conn_Options L c (world s) = before @ o' # after"
    and "a_Name a \<notin> o_Name ` set before" and "o_Name o' = a_Name a"
    and "\<not> o_IsSettable o'"
  shows "showOptions L (Some c) s
           = showOptions (L\<lparr>Conn_Options := \<lambda>c w. before @ after\<rparr>) (Some c) s
     \<and> (\<exists>err s1.
           Conn_SetOption L c (o_Name o') (optionValue o' a) (world s) = (err, world s1)
         \<and> trace s1 = trace s @ [CallSetOption c (o_Name o') (optionValue o' a) err]
         \<and> parseOptions L c (a # args) s =
             (case err of Some e \<Rightarrow> (Return (Some e), s1)
              | None \<Rightarrow> parseOptions L c args s1))"
proof -
  have listing: "showOptions L (Some c) s
           = showOptions (L\<lparr>Conn_Options := \<lambda>c w. before @ after\<rparr>) (Some c) s"
    using assms(1,4)
    by (simp add: showOptions_def emit_def showOptions_loop_Options_irrelevant
        showOptions_loop_skip)
  have found: "findOption (Conn_Options L c (world s)) (a_Name a) = Inr o'"
    using assms(1-3) by (simp add: findOption_first)
  obtain err w where w: "Conn_SetOption L c (a_Name a) (optionValue o' a) (world s) = (err, w)"
    by (cases "Conn_SetOption L c (a_Name a) (optionValue o' a) (world s)")
  let ?s1 = "\<lparr>world = w, trace = trace s @ [CallSetOption c (a_Name a) (optionValue o' a) err]\<rparr>"
  have call: "call_SetOption L c (a_Name a) (optionValue o' a) s = (err, ?s1)"
    by (simp add: call_SetOption_def w)
  have step: "parseOptions L c (a # args) s =
         (case err of Some e \<Rightarrow> (Return (Some e), ?s1) | None \<Rightarrow> parseOptions L c args ?s1)"
    unfolding parseOptions_found [OF found] call by simp
  have "\<exists>err s1.
           Conn_SetOption L c (o_Name o') (optionValue o' a) (world s) = (err, world s1)
         \<and> trace s1 = trace s @ [CallSetOption c (o_Name o') (optionValue o' a) err]
         \<and> parseOptions L c (a # args) s =
             (case err of Some e \<Rightarrow> (Return (Some e), s1)
              | None \<Rightarrow> parseOptions L c args s1)"
    using w step assms(3)
    by (intro exI [of _ err] exI [of _ ?s1]) (simp del: parseOptions.simps)
  with listing show ?thesis by blast
qed

text \<open>
  C2 as stated fails: a request that names an option that is not settable is resolved to
  it and written to the device.
\<close>

theorem nonsettable_option_is_written:
  "\<not> o_IsSettable optLampHours
   \<and> findOption (st_catalog stubWorld) ''lamp-hours'' = Inr optLampHours
   \<and> parseOptions stubApi connA [Option_zero\<lparr>a_Name := ''lamp-hours'', a_Int := 5\<rparr>]
        (start stubWorld)
      = (Return None,
         \<lparr>world = stubWorld\<lparr>st_values := [(''lamp-hours'', VInt 5)]\<rparr>,
          trace = [CallSetOption connA ''lamp-hours'' (VInt 5) None]\<rparr>)"
  by (simp add: stub_defs call_defs optionValue_def)

theorem nonsettable_skipped_by_listing_only_witness:
  "showOptions stubApi (Some connA) (start stubWorld)
     = showOptions (stubApi\<lparr>Conn_Options := \<lambda>c w. [optResolution, optMode, optPreview] @ []\<rparr>)
         (Some connA) (start stubWorld)
   \<and> parseOptions stubApi connA
        [Option_zero\<lparr>a_Name := ''lamp-hours'', a_Int := 7\<rparr>,
         Option_zero\<lparr>a_Name := ''preview'', a_Bool := True\<rparr>] (start stubWorld)
      = (Return None,
         \<lparr>world = stubWorld\<lparr>st_values := [(''preview'', VBool True), (''lamp-hours'', VInt 7)]\<rparr>,
          trace = [CallSetOption connA ''lamp-hours'' (VInt 7) None,
                   CallSetOption connA ''preview'' (VBool True) None]\<rparr>)"
proof -
  let ?a = "Option_zero\<lparr>a_Name := ''lamp-hours'', a_Int := 7\<rparr>"
  let ?b = "Option_zero\<lparr>a_Name := ''preview'', a_Bool := True\<rparr>"
  have h1: "Conn_Options stubApi connA (world (start stubWorld))
              = [optResolution, optMode, optPreview] @ optLampHours # []"
    by (simp add: stubApi_def stubWorld_def start_def)
  have h2: "a_Name ?a \<notin> o_Name ` set [optResolution, optMode, optPreview]"
    by (simp add: stub_defs)
  have h3: "o_Name optLampHours = a_Name ?a" by (simp add: stub_defs)
  have h4: "\<not> o_IsSettable optLampHours" by (simp add: stub_defs)
  note inst = nonsettable_skipped_by_listing_only [OF h1 h2 h3 h4, of "[?b]"]
  from inst have listing: "showOptions stubApi (Some connA) (start stubWorld)
     = showOptions (stubApi\<lparr>Conn_Options := \<lambda>c w. [optResolution, optMode, optPreview] @ []\<rparr>)
         (Some connA) (start stubWorld)"
    by blast
  from inst obtain err s1 where
    w: "Conn_SetOption stubApi connA (o_Name optLampHours) (optionValue optLampHours ?a)
          (world (start stubWorld)) = (err, world s1)"
    and t: "trace s1 = trace (start stubWorld)
              @ [CallSetOption connA (o_Name optLampHours) (optionValue optLampHours ?a) err]"
    and p: "parseOptions stubApi connA [?a, ?b] (start stubWorld) =
         (case err of Some e \<Rightarrow> (Return (Some e), s1)
          | None \<Rightarrow> parseOptions stubApi connA [?b] s1)"
    by blast
  from w have err: "err = None"
    and w1: "world s1 = stubWorld\<lparr>st_values := [(''lamp-hours'', VInt 7)]\<rparr>"
    by (simp_all add: stub_defs optionValue_def)
  from t err have t1: "trace s1 = [CallSetOption connA ''lamp-hours'' (VInt 7) None]"
    by (simp add: stub_defs optionValue_def)
  have s1: "s1 = \<lparr>world = stubWorld\<lparr>st_values := [(''lamp-hours'', VInt 7)]\<rparr>,
                 trace = [CallSetOption connA ''lamp-hours'' (VInt 7) None]\<rparr>"
    using w1 t1 by (cases s1) simp
  have "parseOptions stubApi connA [?a, ?b] (start stubWorld)
      = (Return None,
         \<lparr>world = stubWorld\<lparr>st_values := [(''preview'', VBool True), (''lamp-hours'', VInt 7)]\<rparr>,
          trace = [CallSetOption connA ''lamp-hours'' (VInt 7) None,
                   CallSetOption connA ''preview'' (VBool True) None]\<rparr>)"
    unfolding p err s1 by (simp add: stub_defs call_defs optionValue_def)
  with listing show ?thesis by blast
qed

section \<open>Properties of doScan\<close>

lemma openDevice_loop_opened:
  "openDevice_loop L name devs s = ((c, None), s1) \<Longrightarrow>
   \<exists>n. sane_Open L n (world s) = ((c, None), world s1) \<and> trace s1 = trace s @ [CallOpen n None]"
proof (induction devs)
  case Nil
  then show ?case by simp
next
  case (Cons d devs)
  show ?case
  proof (cases "Contains (d_Name d) name")
    case True
    with Cons.prems have "call_Open L (d_Name d) s = ((c, None), s1)" by simp
    then have "sane_Open L (d_Name d) (world s) = ((c, None), world s1)
        \<and> trace s1 = trace s @ [CallOpen (d_Name d) None]"
      by (auto simp: call_Open_def split: prod.splits)
    then show ?thesis by blast
  next
    case False
    with Cons show ?thesis by simp
  qed
qed

lemma openDevice_opened:
  assumes "openDevice L name s = ((c, None), s1)"
  shows "\<exists>n w0 evs. sane_Open L n w0 = ((c, None), world s1)
           \<and> trace s1 = trace s @ evs @ [CallOpen n None]"
proof -
  obtain c1 err1 w where o: "sane_Open L name (world s) = ((c1, err1), w)"
    by (cases "sane_Open L name (world s)") auto
  let ?s1 = "\<lparr>world = w, trace = trace s @ [CallOpen name err1]\<rparr>"
  have call: "call_Open L name s = ((c1, err1), ?s1)"
    by (simp add: call_Open_def o)
  show ?thesis
  proof (cases err1)
    case None
    with assms call have "c1 = c" "s1 = ?s1" by (simp_all add: openDevice_def)
    with o None have "sane_Open L name (world s) = ((c, None), world s1)
        \<and> trace s1 = trace s @ [] @ [CallOpen name None]"
      by simp
    then show ?thesis by blast
  next
    case (Some e)
    obtain devs err2 w2 where d: "sane_Devices L w = ((devs, err2), w2)"
      by (cases "sane_Devices L w") auto
    let ?s2 = "\<lparr>world = w2, trace = trace s @ [CallOpen name err1, CallDevices err2]\<rparr>"
    have call2: "call_Devices L ?s1 = ((devs, err2), ?s2)"
      by (simp add: call_Devices_def d)
    from assms call call2 Some have none: "err2 = None"
      and loop: "openDevice_loop L name devs ?s2 = ((c, None), s1)"
      by (cases err2; simp add: openDevice_def)+
    from openDevice_loop_opened [OF loop] obtain n where
      "sane_Open L n (world ?s2) = ((c, None), world s1)"
      "trace s1 = trace ?s2 @ [CallOpen n None]"
      by blast
    then have "sane_Open L n w2 = ((c, None), world s1)
        \<and> trace s1 = trace s @ [CallOpen name err1, CallDevices err2] @ [CallOpen n None]"
      by simp
    then show ?thesis by blast
  qed
qed

text \<open>
  C6 (as the code has it). With a destination whose extension is not recognized, \<open>doScan\<close>
  panics with the error \<open>unrecognized extension\<close> before it creates the file or makes any
  call on the session: the state is untouched, whatever session it is handed. When the
  session it is handed is one that \<open>openDevice\<close> has just returned, that session is open
  already at the failure: the latest call made is the \<open>sane.Open\<close> that succeeded with
  this session, and the world is the one that open left. This is how the program runs
  \<open>doScan\<close>: each round of the loop of \<open>listDevices\<close> runs \<open>openDevice\<close> and then \<open>doScan\<close>, on
  the session and in the state \<open>openDevice\<close> returned.
\<close>

theorem doScan_unrecognized_extension:
  assumes "pathToEncoder (Map_ToLower L) fileName = Inl err"
    and "openDevice L name s0 = ((Some h, None), s)"
  shows "doScan L c fileName optargs s' = (Panic UnsupportedFormat, s')
     \<and> doScan L (Some h) fileName optargs s = (Panic UnsupportedFormat, s)
     \<and> (\<exists>n w0 evs. sane_Open L n w0 = ((Some h, None), world s)
           \<and> trace s = trace s0 @ evs @ [CallOpen n None])
     \<and> listDevices_loop L (d # ds) s1 =
         (case openDevice L (d_Name d)
                 (emit [LogPrintf ''Device %s is a %s %s %s''
                          [VString (d_Name d), VString (d_Vendor d), VString (d_Model d),
                           VString (d_Type d)]] s1) of
            ((c2, err2), s2) \<Rightarrow>
              (case doScan L c2 ''1.jpg'' [] s2 of
                 (Panic e, s3) \<Rightarrow> (Panic e, s3)
               | (Return u, s3) \<Rightarrow>
                   (case c2 of
                      None \<Rightarrow> (Panic nilDereference, s3)
                    | Some h2 \<Rightarrow> listDevices_loop L ds (call_Close L h2 s3))))"
proof -
  have fails: "\<And>c s'. doScan L c fileName optargs s' = (Panic UnsupportedFormat, s')"
    using assms(1) pathToEncoder_error [OF assms(1)] by (simp add: doScan_def)
  have opened: "\<exists>n w0 evs. sane_Open L n w0 = ((Some h, None), world s)
           \<and> trace s = trace s0 @ evs @ [CallOpen n None]"
    by (rule openDevice_opened [OF assms(2)])
  have loop: "listDevices_loop L (d # ds) s1 =
         (case openDevice L (d_Name d)
                 (emit [LogPrintf ''Device %s is a %s %s %s''
                          [VString (d_Name d), VString (d_Vendor d), VString (d_Model d),
                           VString (d_Type d)]] s1) of
            ((c2, err2), s2) \<Rightarrow>
              (case doScan L c2 ''1.jpg'' [] s2 of
                 (Panic e, s3) \<Rightarrow> (Panic e, s3)
               | (Return u, s3) \<Rightarrow>
                   (case c2 of
                      None \<Rightarrow> (Panic nilDereference, s3)
                    | Some h2 \<Rightarrow> listDevices_loop L ds (call_Close L h2 s3))))"
    by (simp add: Let_def)
  from fails [of c s'] fails [of "Some h" s] opened loop show ?thesis
    by (intro conjI)
qed

theorem doScan_unrecognized_extension_witness:
  "pathToEncoder (Map_ToLower stubApi) ''scan.bmp'' = Inl UnsupportedFormat
   \<and> openDevice stubApi ''test'' (start stubWorld)
       = ((Some connA, None),
          \<lparr>world = stubWorld\<lparr>st_open := [connA]\<rparr>,
           trace = [CallOpen ''test'' (Some (LibError ''Invalid argument'')), CallDevices None,
                    CallOpen ''test:0'' None]\<rparr>)
   \<and> doScan stubApi (Some connA) ''scan.bmp'' []
         \<lparr>world = stubWorld\<lparr>st_open := [connA]\<rparr>,
          trace = [CallOpen ''test'' (Some (LibError ''Invalid argument'')), CallDevices None,
                   CallOpen ''test:0'' None]\<rparr>
       = (Panic UnsupportedFormat,
          \<lparr>world = stubWorld\<lparr>st_open := [connA]\<rparr>,
           trace = [CallOpen ''test'' (Some (LibError ''Invalid argument'')), CallDevices None,
                    CallOpen ''test:0'' None]\<rparr>)
   \<and> (\<exists>n w0 evs. sane_Open stubApi n w0 = ((Some connA, None), stubWorld\<lparr>st_open := [connA]\<rparr>)
          \<and> [CallOpen ''test'' (Some (LibError ''Invalid argument'')), CallDevices None,
              CallOpen ''test:0'' None] = evs @ [CallOpen n None])"
proof -
  let ?s = "\<lparr>world = stubWorld\<lparr>st_open := [connA]\<rparr>,
             trace = [CallOpen ''test'' (Some (LibError ''Invalid argument'')), CallDevices None,
                      CallOpen ''test:0'' None]\<rparr>"
  have h1: "pathToEncoder (Map_ToLower stubApi) ''scan.bmp'' = Inl UnsupportedFormat"
    by (simp add: pathToEncoder_examples)
  have h2: "openDevice stubApi ''test'' (start stubWorld) = ((Some connA, None), ?s)"
    by (simp add: stub_defs call_defs openDevice_def)
  note inst = doScan_unrecognized_extension [OF h1 h2, of "Some connA" "[]" ?s]
  from inst have a: "doScan stubApi (Some connA) ''scan.bmp'' [] ?s = (Panic UnsupportedFormat, ?s)"
    by blast
  from inst have b: "\<exists>n w0 evs. sane_Open stubApi n w0 = ((Some connA, None), world ?s)
      \<and> trace ?s = trace (start stubWorld) @ evs @ [CallOpen n None]"
    by blast
  from b have "\<exists>n w0 evs. sane_Open stubApi n w0 = ((Some connA, None), stubWorld\<lparr>st_open := [connA]\<rparr>)
          \<and> [CallOpen ''test'' (Some (LibError ''Invalid argument'')), CallDevices None,
              CallOpen ''test:0'' None] = evs @ [CallOpen n None]"
    by (simp add: start_def)
  with h1 h2 a show ?thesis by blast
qed

text \<open>
  C6 as stated fails: when \<open>doScan\<close> fails on the destination \<open>scan.bmp\<close>, the session it
  was handed has been opened already, and the open is the call before the failure.
\<close>

theorem session_open_before_encoder_failure:
  "openDevice stubApi ''test:0'' (start stubWorld)
     = ((Some connA, None),
        \<lparr>world = stubWorld\<lparr>st_open := [connA]\<rparr>, trace = [CallOpen ''test:0'' None]\<rparr>)
   \<and> doScan stubApi (Some connA) ''scan.bmp'' []
        \<lparr>world = stubWorld\<lparr>st_open := [connA]\<rparr>, trace = [CallOpen ''test:0'' None]\<rparr>
     = (Panic UnsupportedFormat,
        \<lparr>world = stubWorld\<lparr>st_open := [connA]\<rparr>, trace = [CallOpen ''test:0'' None]\<rparr>)"
  by (simp add: stub_defs call_defs openDevice_def doScan_def pathToEncoder_examples)

section \<open>The session in listDevices\<close>

text \<open>
  When \<open>doScan\<close> panics, the loop of \<open>listDevices\<close> ends in the state \<open>doScan\<close> left: the
  statement \<open>c.Close()\<close> after it is not reached.
\<close>

lemma listDevices_loop_panic:
  assumes "openDevice L (d_Name d)
             (emit [LogPrintf ''Device %s is a %s %s %s''
                      [VString (d_Name d), VString (d_Vendor d), VString (d_Model d),
                       VString (d_Type d)]] s) = ((c, err), s2)"
    and "doScan L c ''1.jpg'' [] s2 = (Panic e, s3)"
  shows "listDevices_loop L (d # ds) s = (Panic e, s3)"
  using assms by (simp add: Let_def)

text \<open>
  C4 on a device whose acquisition fails: the program panics, the session that was opened
  is never closed (no close call on the trace, the session still open in the world),
  although the deferred \<open>sane.Exit\<close> has run. On the same device with a working
  acquisition the session is closed exactly once.
\<close>

theorem session_left_open_on_failure:
  "fst (main stubApi (start failingWorld)) = Panic (LibError ''Error during device I/O'')
   \<and> CallOpen ''test:0'' None \<in> set (trace (snd (main stubApi (start failingWorld))))
   \<and> closeCount connA (trace (snd (main stubApi (start failingWorld)))) = 0
   \<and> st_open (world (snd (main stubApi (start failingWorld)))) = [connA]
   \<and> last (trace (snd (main stubApi (start failingWorld)))) = CallExit
   \<and> fst (main stubApi (start (failingWorld\<lparr>st_readFails := False\<rparr>))) = Return ()
   \<and> closeCount connA (trace (snd (main stubApi (start (failingWorld\<lparr>st_readFails := False\<rparr>))))) = 1"
  by code_simp

end
